theory Spec2Isabelle
  imports Main
begin

section \<open>Values, contexts and events\<close>

text \<open>
  The engine is JavaScript (TypeScript source, \<^verbatim>\<open>src/service.ts\<close>, which holds the
  service and, after the separator, the core). An object is a finite map from property
  names to values; the spread \<^verbatim>\<open>{ ...a, ...b }\<close> is \<open>a ++ b\<close>. Numbers are integers,
  which is all the examples below need.
\<close>

datatype jsval =
    JUndefined
  | JNull
  | JBool bool
  | JNum int
  | JStr string
  | JObj "string \<Rightarrow> jsval option"
  | JArr "jsval list"

type_synonym object = "string \<rightharpoonup> jsval"
type_synonym "context" = object
type_synonym event = object

text \<open>A property read \<^verbatim>\<open>obj.key\<close> on a context or an event.\<close>

definition field :: "object \<Rightarrow> string \<Rightarrow> jsval" where
  "field obj key = (case obj key of None \<Rightarrow> JUndefined | Some v \<Rightarrow> v)"

text \<open>The \<^verbatim>\<open>typeof\<close> operator and truthiness on the values above.\<close>

fun typeof :: "jsval \<Rightarrow> string" where
  "typeof JUndefined = ''undefined''"
| "typeof JNull = ''object''"
| "typeof (JBool b) = ''boolean''"
| "typeof (JNum n) = ''number''"
| "typeof (JStr s) = ''string''"
| "typeof (JObj kvs) = ''object''"
| "typeof (JArr vs) = ''object''"

fun falsy :: "jsval \<Rightarrow> bool" where
  "falsy JUndefined = True"
| "falsy JNull = True"
| "falsy (JBool b) = (\<not> b)"
| "falsy (JNum n) = (n = 0)"
| "falsy (JStr s) = (s = [])"
| "falsy (JObj kvs) = False"
| "falsy (JArr vs) = False"

text \<open>
  \<open>ToString\<close>, which JavaScript applies to a value used as a property key
  (\<^verbatim>\<open>machine.states[state.name]\<close>, \<^verbatim>\<open>transitions[eventObj.type]\<close>) or added to a string.
  \<open>StateObject.name\<close> and \<open>EventObject.type\<close> are typed \<open>string\<close>, but the service
  starts from \<^verbatim>\<open>{ name: null, context }\<close> and \<^verbatim>\<open>{ type: null }\<close>, and the React hook from
  \<^verbatim>\<open>{ context }\<close>, whose name is undefined.
\<close>

fun digits :: "nat \<Rightarrow> string" where
  "digits n =
     (if n < 10 then [''0123456789'' ! n]
      else digits (n div 10) @ [''0123456789'' ! (n mod 10)])"

declare digits.simps [simp del]

fun join :: "string list \<Rightarrow> string" where
  "join [] = []"
| "join [s] = s"
| "join (s # t # ss) = s @ '','' @ join (t # ss)"

fun ToString :: "jsval \<Rightarrow> string" where
  "ToString JUndefined = ''undefined''"
| "ToString JNull = ''null''"
| "ToString (JBool b) = (if b then ''true'' else ''false'')"
| "ToString (JNum n) = (if n < 0 then ''-'' @ digits (nat (- n)) else digits (nat n))"
| "ToString (JStr s) = s"
| "ToString (JObj kvs) = ''[object Object]''"
| "ToString (JArr vs) =
     join (map (\<lambda>v. if v = JUndefined \<or> v = JNull then [] else ToString v) vs)"

text \<open>
  An event is \<^verbatim>\<open>{ type, ...payload }\<close>. \<^verbatim>\<open>send\<close> and \<^verbatim>\<open>transition\<close> also take the bare
  name of an event.
\<close>

datatype event_arg = EventName string | EventObject event

text \<open>\<^verbatim>\<open>toEventObject\<close> (service.ts 644-648).\<close>

fun toEventObject :: "event_arg \<Rightarrow> event" where
  "toEventObject (EventName s) = [''type'' \<mapsto> JStr s]"
| "toEventObject (EventObject ev) = ev"

section \<open>Errors and hooks\<close>

text \<open>
  Exceptions are values. \<open>Error msg\<close> is the engine's \<^verbatim>\<open>throw new Error(msg)\<close>,
  \<open>TypeError\<close> is what the JavaScript runtime raises on reading a property of
  \<^verbatim>\<open>undefined\<close> or iterating a non-iterable, \<open>Thrown x\<close> is an exception raised by a
  user hook.
\<close>

datatype error = Error string | TypeError | Thrown string

text \<open>
  A reducer returns a new context or the module-private sentinel \<^verbatim>\<open>ACTION\<close>
  (service.ts 130), which \<^verbatim>\<open>applyReducers\<close> recognises by identity.
\<close>

datatype reduced = ACTION | Context "context"

type_synonym guard = "context \<Rightarrow> event \<Rightarrow> error + bool"
type_synonym reducer = "context \<Rightarrow> event \<Rightarrow> error + reduced"
type_synonym action = "context \<Rightarrow> event \<Rightarrow> error + unit"

text \<open>
  A user effect function is called with the context, the event and a \<open>send\<close>. It is
  described by what the engine can observe of it: the events it passes to that \<open>send\<close>
  while it runs, and then what it returns (nothing, a promise-like value, or a cleanup
  function) or throws. A cleanup function is in turn described by the events it passes,
  in order, to the same \<open>send\<close> when it is called.
\<close>

datatype effect_result = Nothing | PromiseLike | Cleanup "event_arg list"

datatype effect_run = Run (sent: "event_arg list") (returned: "error + effect_result")

type_synonym effect_fn = "context \<Rightarrow> event \<Rightarrow> effect_run"

text \<open>An invoke function returns a promise (or throws before it does).\<close>

datatype promise = Fulfilled jsval | Rejected jsval | Pending

type_synonym invoke_fn = "context \<Rightarrow> event \<Rightarrow> error + promise"

section \<open>The machine graph (types.ts)\<close>

text \<open>
  \<open>Transition | Internal | Immediate\<close> is a tagged union; \<^verbatim>\<open>isInternal\<close> tests for the
  \<open>internal\<close> key, which only the \<open>Internal\<close> variant has.
\<close>

datatype trans =
    Transition (event: string) (target: string) (guards: "guard list") (reducers: "reducer list")
  | Internal (event: string) (guards: "guard list") (reducers: "reducer list")
  | Immediate (target: string) (guards: "guard list") (reducers: "reducer list")

fun isInternal :: "trans \<Rightarrow> bool" where
  "isInternal (Internal e gs rs) = True"
| "isInternal t = False"

record Enter =
  reducers :: "reducer list"
  invokes :: "invoke_fn list"
  effects :: "effect_fn list"

record Exit =
  reducers :: "reducer list"

text \<open>
  A JavaScript object used as a dictionary: its own properties in \<^verbatim>\<open>Object.keys\<close>
  order. \<open>machine.states\<close> and each node's \<open>transitions\<close> are created as \<^verbatim>\<open>{}\<close>, so a
  read \<^verbatim>\<open>obj[key]\<close> of a key that is not an own property falls through to
  \<^verbatim>\<open>Object.prototype\<close>: for its member names the read yields the inherited member
  (a function, or the prototype object for \<^verbatim>\<open>__proto__\<close>), which is truthy, is not
  iterable and has none of the fields the engine reads; for any other key it yields
  \<^verbatim>\<open>undefined\<close>.
\<close>

type_synonym 'a dict = "(string \<times> 'a) list"

definition Object_prototype :: "string list" where
  "Object_prototype =
     [''constructor'', ''__defineGetter__'', ''__defineSetter__'', ''hasOwnProperty'',
      ''__lookupGetter__'', ''__lookupSetter__'', ''isPrototypeOf'',
      ''propertyIsEnumerable'', ''toString'', ''valueOf'', ''__proto__'',
      ''toLocaleString'']"

datatype 'a property = Own 'a | Inherited | Missing

definition get :: "'a dict \<Rightarrow> string \<Rightarrow> 'a property" where
  "get obj key =
     (case map_of obj key of
        Some v \<Rightarrow> Own v
      | None \<Rightarrow> if key \<in> set Object_prototype then Inherited else Missing)"

text \<open>
  \<open>immediates\<close> is optional in the type, but \<^verbatim>\<open>createState\<close>, the only producer of
  nodes, always stores an array; the model keeps the array.
\<close>

record MachineState =
  name :: string
  transitions :: "trans list dict"
  immediates :: "trans list"
  enter :: "Enter list"
  exit :: "Exit list"

record Machine =
  states :: "MachineState dict"

record state =
  name :: jsval
  "context" :: "context"
  final :: bool

text \<open>An entry of the effects list: \<^verbatim>\<open>{ run, event }\<close>.\<close>

datatype run = PromiseEffect invoke_fn | EffectFn effect_fn

record effect =
  run :: run
  event :: event

section \<open>Hook options and lowering\<close>

text \<open>
  \<open>TransitionOptions\<close>, \<open>EnterOptions\<close> and \<open>ExitOptions\<close> (types.ts): each key is
  absent, a single hook, or an array of hooks. One record serves the three interfaces;
  \<^verbatim>\<open>merge\<close> only reads the keys named in the list of allowed hooks it is given, so a
  key the interface does not have is never looked at.
\<close>

datatype 'a hooks = Absent | One 'a | Many "'a list"

text \<open>
  \<open>Assign\<close> (types.ts): \<^verbatim>\<open>true\<close>, a function of the context and the event payload, or a
  constant partial context.
\<close>

datatype assign =
    AssignTrue
  | AssignFn "context \<Rightarrow> context \<Rightarrow> error + context"
  | AssignValue "context"

record options =
  guard :: "guard hooks"
  reduce :: "reducer hooks"
  assign :: "assign hooks"
  action :: "action hooks"
  invoke :: "invoke_fn hooks"
  effect :: "effect_fn hooks"

definition no_options :: options where
  "no_options =
     \<lparr>guard = Absent, reduce = Absent, assign = Absent, action = Absent,
      invoke = Absent, effect = Absent\<rparr>"

text \<open>
  \<^verbatim>\<open>toArray(opts[hook] || [])\<close> (service.ts 525, 640-642): a hook is a function,
  \<^verbatim>\<open>true\<close> or an object, all truthy.
\<close>

fun toArray :: "'a hooks \<Rightarrow> 'a list" where
  "toArray Absent = []"
| "toArray (One v) = [v]"
| "toArray (Many vs) = vs"

text \<open>
  \<^verbatim>\<open>assignToReduce\<close> (service.ts 470-495). \<open>data\<close> is the rest of the destructuring
  \<^verbatim>\<open>const { type, ...data } = event\<close>.
\<close>

definition data :: "event \<Rightarrow> object" where
  "data ev = ev |` (- {''type''})"

fun assignToReduce :: "assign \<Rightarrow> reducer" where
  "assignToReduce AssignTrue = (\<lambda>c ev. Inr (Context (c ++ data ev)))"
| "assignToReduce (AssignFn f) =
     (\<lambda>c ev. case f c (data ev) of
                Inl x \<Rightarrow> Inl x
              | Inr partial \<Rightarrow> Inr (Context (c ++ partial)))"
| "assignToReduce (AssignValue v) = (\<lambda>c ev. Inr (Context (c ++ v)))"

text \<open>\<^verbatim>\<open>actionToReduce\<close> (service.ts 497-504).\<close>

definition actionToReduce :: "action \<Rightarrow> reducer" where
  "actionToReduce act =
     (\<lambda>c ev. case act c ev of Inl x \<Rightarrow> Inl x | Inr u \<Rightarrow> Inr ACTION)"

text \<open>The hook kinds (constants.ts) and the three lists of allowed hooks (service.ts 106-123).\<close>

datatype HookType = ASSIGN | REDUCE | ACTION_HOOK | GUARD | INVOKE | EFFECT

definition transitionHooks :: "HookType list" where
  "transitionHooks = [ASSIGN, REDUCE, ACTION_HOOK, GUARD]"

definition enterHooks :: "HookType list" where
  "enterHooks = [ASSIGN, REDUCE, ACTION_HOOK, INVOKE, EFFECT]"

definition exitHooks :: "HookType list" where
  "exitHooks = [ASSIGN, REDUCE, ACTION_HOOK]"

text \<open>
  The object \<^verbatim>\<open>merge\<close> builds (service.ts 513-541). A key that was never written reads
  as \<^verbatim>\<open>[]\<close> through \<^verbatim>\<open>merged[key] || []\<close>, so each field starts empty.
\<close>

record merged =
  guards :: "guard list"
  reducers :: "reducer list"
  effects :: "effect_fn list"
  invokes :: "invoke_fn list"

definition empty_merged :: merged where
  "empty_merged = \<lparr>guards = [], reducers = [], effects = [], invokes = []\<rparr>"

text \<open>
  The inner function \<^verbatim>\<open>add\<close>: \<^verbatim>\<open>mappedHooks\<close> sends \<open>assign\<close> and \<open>action\<close> to the
  \<open>reduce\<close> kind through their transforms, and \<^verbatim>\<open>HOOK_KEYS\<close> names the list each kind is
  appended to.
\<close>

fun add :: "options \<Rightarrow> HookType \<Rightarrow> merged \<Rightarrow> merged" where
  "add opts ASSIGN m =
     m\<lparr>merged.reducers := merged.reducers m @ map assignToReduce (toArray (assign opts))\<rparr>"
| "add opts REDUCE m =
     m\<lparr>merged.reducers := merged.reducers m @ toArray (reduce opts)\<rparr>"
| "add opts ACTION_HOOK m =
     m\<lparr>merged.reducers := merged.reducers m @ map actionToReduce (toArray (action opts))\<rparr>"
| "add opts GUARD m =
     m\<lparr>merged.guards := merged.guards m @ toArray (guard opts)\<rparr>"
| "add opts INVOKE m =
     m\<lparr>merged.invokes := merged.invokes m @ toArray (invoke opts)\<rparr>"
| "add opts EFFECT m =
     m\<lparr>merged.effects := merged.effects m @ toArray (effect opts)\<rparr>"

definition merge :: "options \<Rightarrow> HookType list \<Rightarrow> merged" where
  "merge opts allowedHooks = fold (add opts) allowedHooks empty_merged"

section \<open>Builders\<close>

text \<open>\<^verbatim>\<open>assertString\<close> (service.ts 132-139); on success the argument is the string.\<close>

fun the_string :: "jsval \<Rightarrow> string" where
  "the_string (JStr s) = s"
| "the_string v = []"

definition assertString :: "jsval \<Rightarrow> string \<Rightarrow> error + string" where
  "assertString argument err =
     (if typeof argument \<noteq> ''string'' then Inl (Error err) else Inr (the_string argument))"

text \<open>\<^verbatim>\<open>createEnter\<close>, \<^verbatim>\<open>createExit\<close> (service.ts 244-260).\<close>

definition createEnter :: "options \<Rightarrow> Enter" where
  "createEnter opts =
     (let m = merge opts enterHooks
      in \<lparr>Enter.reducers = merged.reducers m, invokes = merged.invokes m,
          effects = merged.effects m\<rparr>)"

definition createExit :: "options \<Rightarrow> Exit" where
  "createExit opts = \<lparr>Exit.reducers = merged.reducers (merge opts exitHooks)\<rparr>"

text \<open>\<^verbatim>\<open>createTransition\<close>, \<^verbatim>\<open>createInternal\<close>, \<^verbatim>\<open>createImmediate\<close> (service.ts 262-315).\<close>

definition createTransition :: "jsval \<Rightarrow> jsval \<Rightarrow> options \<Rightarrow> error + trans" where
  "createTransition ev tgt opts =
     (case assertString ev ''First argument of the transition must be the name of the event'' of
        Inl x \<Rightarrow> Inl x
      | Inr e \<Rightarrow>
         (case assertString tgt
                 ''Second argument of the transition must be the name of the target state'' of
            Inl x \<Rightarrow> Inl x
          | Inr t \<Rightarrow>
             (let m = merge opts transitionHooks
              in Inr (Transition e t (merged.guards m) (merged.reducers m)))))"

definition createInternal :: "jsval \<Rightarrow> options \<Rightarrow> error + trans" where
  "createInternal ev opts =
     (case assertString ev
             ''First argument of the internal transition must be the name of the event'' of
        Inl x \<Rightarrow> Inl x
      | Inr e \<Rightarrow>
         (let m = merge opts transitionHooks
          in Inr (Internal e (merged.guards m) (merged.reducers m))))"

definition createImmediate :: "jsval \<Rightarrow> options \<Rightarrow> error + trans" where
  "createImmediate tgt opts =
     (case assertString tgt
             ''First argument of the immediate transition must be the name of the target state'' of
        Inl x \<Rightarrow> Inl x
      | Inr t \<Rightarrow>
         (let m = merge opts transitionHooks
          in Inr (Immediate t (merged.guards m) (merged.reducers m))))"

section \<open>The transition engine\<close>

text \<open>\<^verbatim>\<open>checkGuards\<close> (service.ts 435-444); \<open>every\<close> is \<^verbatim>\<open>Array.prototype.every\<close>.\<close>

fun every :: "guard list \<Rightarrow> context \<Rightarrow> event \<Rightarrow> error + bool" where
  "every [] c ev = Inr True"
| "every (g # gs) c ev =
     (case g c ev of
        Inl x \<Rightarrow> Inl x
      | Inr b \<Rightarrow> if b then every gs c ev else Inr False)"

definition checkGuards :: "context \<Rightarrow> event \<Rightarrow> trans \<Rightarrow> error + bool" where
  "checkGuards c ev t =
     (if length (trans.guards t) = 0 then Inr True else every (trans.guards t) c ev)"

text \<open>
  \<^verbatim>\<open>applyReducers\<close> (service.ts 446-461). The source assigns to \<open>next.context\<close>; the
  model returns the updated state.
\<close>

fun applyReducers :: "state \<Rightarrow> event \<Rightarrow> reducer list \<Rightarrow> error + state" where
  "applyReducers nxt ev [] = Inr nxt"
| "applyReducers nxt ev (r # rs) =
     (case r (context nxt) ev of
        Inl x \<Rightarrow> Inl x
      | Inr ACTION \<Rightarrow> applyReducers nxt ev rs
      | Inr (Context result) \<Rightarrow> applyReducers (nxt\<lparr>context := result\<rparr>) ev rs)"

text \<open>The loops over the exit hooks (service.ts 386-388) and the enter hooks (396-398).\<close>

fun applyExit :: "state \<Rightarrow> event \<Rightarrow> Exit list \<Rightarrow> error + state" where
  "applyExit nxt ev [] = Inr nxt"
| "applyExit nxt ev (x # xs) =
     (case applyReducers nxt ev (Exit.reducers x) of
        Inl e \<Rightarrow> Inl e
      | Inr nxt' \<Rightarrow> applyExit nxt' ev xs)"

fun applyEnter :: "state \<Rightarrow> event \<Rightarrow> Enter list \<Rightarrow> error + state" where
  "applyEnter nxt ev [] = Inr nxt"
| "applyEnter nxt ev (x # xs) =
     (case applyReducers nxt ev (Enter.reducers x) of
        Inl e \<Rightarrow> Inl e
      | Inr nxt' \<Rightarrow> applyEnter nxt' ev xs)"

text \<open>
  The scan of a candidate list (service.ts 350-354 and 402-406): the first candidate
  whose guards pass, if any.
\<close>

fun first_candidate :: "context \<Rightarrow> event \<Rightarrow> trans list \<Rightarrow> error + trans option" where
  "first_candidate c ev [] = Inr None"
| "first_candidate c ev (candidate # cs) =
     (case checkGuards c ev candidate of
        Inl x \<Rightarrow> Inl x
      | Inr b \<Rightarrow> if b then Inr (Some candidate) else first_candidate c ev cs)"

text \<open>The effects of the settled node (service.ts 416-430): per enter hook, invokes then effects.\<close>

fun collectEffects :: "event \<Rightarrow> Enter list \<Rightarrow> effect list" where
  "collectEffects ev [] = []"
| "collectEffects ev (x # xs) =
     map (\<lambda>i. \<lparr>run = PromiseEffect i, event = ev\<rparr>) (Enter.invokes x)
     @ map (\<lambda>f. \<lparr>run = EffectFn f, event = ev\<rparr>) (Enter.effects x)
     @ collectEffects ev xs"

text \<open>
  The end of \<^verbatim>\<open>applyTransition\<close> once no immediate applies (service.ts 409-432). The
  effects are \<open>None\<close> for \<^verbatim>\<open>null\<close>.
\<close>

definition settle ::
  "trans \<Rightarrow> MachineState \<Rightarrow> state \<Rightarrow> event \<Rightarrow> state \<times> effect list option" where
  "settle transition nextState nxt ev =
     (let nxt' =
        (if length (map fst (MachineState.transitions nextState)) = 0
            \<and> length (MachineState.immediates nextState) = 0
         then nxt\<lparr>final := True\<rparr> else nxt)
      in (nxt', if isInternal transition then None
                else Some (collectEffects ev (MachineState.enter nextState))))"

text \<open>
  \<^verbatim>\<open>applyTransition\<close> (service.ts 364-433). \<open>next\<close> is a copy of \<open>cur\<close>, so the
  caller's state is not written. A node that is \<^verbatim>\<open>undefined\<close> or inherited makes the
  first read of one of its fields a \<open>TypeError\<close>. The recursion follows immediates
  and need not end (two states with unguarded immediates to each other), so the result
  is an option and \<open>None\<close> stands for a call that does not return.
\<close>

partial_function (option) applyTransition ::
  "Machine \<Rightarrow> state \<Rightarrow> event \<Rightarrow> trans \<Rightarrow> (error + state \<times> effect list option) option" where
  "applyTransition machine cur ev transition =
     (let currentName = state.name cur;
          tgt = (if isInternal transition then currentName
                 else JStr (trans.target transition));
          currState = get (states machine) (ToString currentName);
          nextState = get (states machine) (ToString tgt)
      in case (if isInternal transition then Inr cur
               else case currState of
                      Missing \<Rightarrow> Inr cur
                    | Inherited \<Rightarrow> Inl TypeError
                    | Own node \<Rightarrow> applyExit cur ev (MachineState.exit node)) of
           Inl x \<Rightarrow> Some (Inl x)
         | Inr exited \<Rightarrow>
            (case applyReducers (exited\<lparr>state.name := tgt\<rparr>) ev (trans.reducers transition) of
               Inl x \<Rightarrow> Some (Inl x)
             | Inr reduced \<Rightarrow>
                (case nextState of
                   Missing \<Rightarrow> Some (Inl TypeError)
                 | Inherited \<Rightarrow> Some (Inl TypeError)
                 | Own node \<Rightarrow>
                    (case (if isInternal transition then Inr reduced
                           else applyEnter reduced ev (MachineState.enter node)) of
                       Inl x \<Rightarrow> Some (Inl x)
                     | Inr nxt \<Rightarrow>
                        (case first_candidate (context nxt) ev (MachineState.immediates node) of
                           Inl x \<Rightarrow> Some (Inl x)
                         | Inr (Some candidate) \<Rightarrow> applyTransition machine nxt ev candidate
                         | Inr None \<Rightarrow> Some (Inr (settle transition node nxt ev)))))))"

text \<open>
  \<^verbatim>\<open>transition\<close> (service.ts 324-357). \<^verbatim>\<open>machine.states[state.name] || {}\<close> and
  \<^verbatim>\<open>currState.transitions || {}\<close> leave an empty dictionary when the node is not an own
  property; \<^verbatim>\<open>transitions[eventObj.type] || []\<close> is then read from that dictionary, and
  the \<^verbatim>\<open>for ... of\<close> over an inherited member raises.
\<close>

definition transition ::
  "Machine \<Rightarrow> state \<Rightarrow> event_arg \<Rightarrow> (error + state \<times> effect list option) option" where
  "transition machine st evt =
     (let eventObj = toEventObject evt;
          stateNames = map fst (states machine)
      in if falsy (state.name st) \<and> field eventObj ''type'' = JNull \<and> length stateNames > 0
         then (case createImmediate (JStr (hd stateNames)) no_options of
                 Inl x \<Rightarrow> Some (Inl x)
               | Inr initialTransition \<Rightarrow> applyTransition machine st eventObj initialTransition)
         else
           (let transitions =
                  (case get (states machine) (ToString (state.name st)) of
                     Own currState \<Rightarrow> MachineState.transitions currState
                   | Inherited \<Rightarrow> []
                   | Missing \<Rightarrow> [])
            in case get transitions (ToString (field eventObj ''type'')) of
                 Inherited \<Rightarrow> Some (Inl TypeError)
               | Missing \<Rightarrow> Some (Inr (st, None))
               | Own candidates \<Rightarrow>
                  (case first_candidate (context st) eventObj candidates of
                     Inl x \<Rightarrow> Some (Inl x)
                   | Inr (Some candidate) \<Rightarrow> applyTransition machine st eventObj candidate
                   | Inr None \<Rightarrow> Some (Inr (st, None)))))"

section \<open>The lowered assign on an object store\<close>

text \<open>
  To say that the reducer made from an \<open>assign\<close> hook builds a new object, the objects
  are placed in a store: a list of objects, an address being an index into it. An object
  literal and a rest pattern allocate, which appends to the store. The user's function is
  given the contents of the context and of the payload. This is \<^verbatim>\<open>assignToReduce\<close>
  (service.ts 482-494) once more, on addresses.
\<close>

type_synonym store = "object list"

definition alloc :: "object \<Rightarrow> store \<Rightarrow> nat \<times> store" where
  "alloc obj st = (length st, st @ [obj])"

definition assignToReduce_store ::
  "assign \<Rightarrow> store \<Rightarrow> nat \<Rightarrow> nat \<Rightarrow> error + nat \<times> store" where
  "assignToReduce_store a st c e =
     (case alloc ((st ! e) |` (- {''type''})) st of
        (d, st1) \<Rightarrow>
          (case a of
             AssignTrue \<Rightarrow> Inr (alloc ((st1 ! c) ++ (st1 ! d)) st1)
           | AssignFn f \<Rightarrow>
               (case f (st1 ! c) (st1 ! d) of
                  Inl x \<Rightarrow> Inl x
                | Inr partial \<Rightarrow> Inr (alloc ((st1 ! c) ++ partial) st1))
           | AssignValue v \<Rightarrow> Inr (alloc ((st1 ! c) ++ v) st1)))"

section \<open>The effect runtime\<close>

text \<open>
  \<^verbatim>\<open>runEffects\<close> writes \<open>dispose\<close> and \<open>disposed\<close> into the effect objects it is
  given, and the closures it creates read them later, so the effect objects live in a
  store and are named by reference. \<open>dispose\<close> holds the user's cleanup function once
  \<^verbatim>\<open>runEffects\<close> has wrapped it. The world also has the warnings that
  \<^verbatim>\<open>tiny-warning\<close> printed and the state \<open>session\<close> that the caller's \<open>send\<close> acts
  on. A \<open>send\<close> returns the new world and the exception it raised, if any, or \<open>None\<close>
  when it does not return.
\<close>

record effect_obj = effect +
  dispose :: "event_arg list option"
  disposed :: bool

record 's world =
  objects :: "nat \<Rightarrow> effect_obj"
  warnings :: "string list"
  session :: 's

type_synonym 's send = "event_arg \<Rightarrow> 's world \<Rightarrow> ('s world \<times> error option) option"

definition disposed_warning :: string where
  "disposed_warning =
     ''Can't send events in an effect after it has been cleaned up. ''
     @ ''This is a no-op, but indicates a memory leak in your application. ''
     @ ''To fix, cancel all subscriptions and asynchronous tasks in the effect's cleanup function.''"

definition promise_warning :: string where
  "promise_warning =
     ''Effect function must return a cleanup function or nothing. ''
     @ ''Use invoke instead of effect for async functions, ''
     @ ''or call the async function inside the synchronous effect function.''"

text \<open>\<^verbatim>\<open>safeSend\<close> of the effect at reference \<open>r\<close> (service.ts 591-604).\<close>

definition safeSend :: "'s send \<Rightarrow> nat \<Rightarrow> 's send" where
  "safeSend send r evt w =
     (if disposed (objects w r)
      then Some (w\<lparr>warnings := warnings w @ [disposed_warning]\<rparr>, None)
      else send evt w)"

text \<open>User code passing events to the \<open>send\<close> it holds, one call after the other.\<close>

fun calls :: "'s send \<Rightarrow> event_arg list \<Rightarrow> 's world \<Rightarrow> ('s world \<times> error option) option" where
  "calls send [] w = Some (w, None)"
| "calls send (e # es) w =
     (case send e w of
        None \<Rightarrow> None
      | Some (w', Some x) \<Rightarrow> Some (w', Some x)
      | Some (w', None) \<Rightarrow> calls send es w')"

text \<open>
  The wrapper stored in \<open>effect.dispose\<close> (service.ts 617-620): it sets \<open>disposed\<close>,
  then calls the user's cleanup function, which holds this effect's \<^verbatim>\<open>safeSend\<close>.
  The closures capture \<open>send\<close>; the model passes it where they are called.
\<close>

definition dispose_wrapper ::
  "'s send \<Rightarrow> nat \<Rightarrow> event_arg list \<Rightarrow> 's world \<Rightarrow> ('s world \<times> error option) option" where
  "dispose_wrapper send r cleanup w =
     calls (safeSend send r) cleanup
       (w\<lparr>objects := (objects w)(r := (objects w r)\<lparr>disposed := True\<rparr>)\<rparr>)"

text \<open>\<^verbatim>\<open>effect.dispose?.()\<close>.\<close>

definition call_dispose :: "'s send \<Rightarrow> nat \<Rightarrow> 's world \<Rightarrow> ('s world \<times> error option) option" where
  "call_dispose send r w =
     (case dispose (objects w r) of
        None \<Rightarrow> Some (w, None)
      | Some cleanup \<Rightarrow> dispose_wrapper send r cleanup w)"

text \<open>
  \<^verbatim>\<open>effect.run(state.context, effect.event, safeSend)\<close>. \<^verbatim>\<open>promiseEffect\<close>
  (service.ts 547-572) calls the invoke function and returns a cleanup function that
  sends nothing; what the promise does later is not part of this call.
\<close>

definition run_effect ::
  "'s send \<Rightarrow> nat \<Rightarrow> state \<Rightarrow> 's world \<Rightarrow> ('s world \<times> (error + effect_result)) option" where
  "run_effect send r st w =
     (case run (objects w r) of
        EffectFn f \<Rightarrow>
          (case f (context st) (event (objects w r)) of
             Run sends result \<Rightarrow>
               (case calls (safeSend send r) sends w of
                  None \<Rightarrow> None
                | Some (w', Some x) \<Rightarrow> Some (w', Inl x)
                | Some (w', None) \<Rightarrow> Some (w', result)))
      | PromiseEffect fn \<Rightarrow>
          (case fn (context st) (event (objects w r)) of
             Inl x \<Rightarrow> Some (w, Inl x)
           | Inr p \<Rightarrow> Some (w, Inr (Cleanup []))))"

text \<open>
  \<^verbatim>\<open>runEffects\<close> (service.ts 579-626); the third argument of the loop is the local
  \<open>runningEffects\<close>.
\<close>

fun runEffects_loop ::
  "'s send \<Rightarrow> nat list \<Rightarrow> state \<Rightarrow> nat list \<Rightarrow> 's world
     \<Rightarrow> ('s world \<times> (error + nat list)) option" where
  "runEffects_loop send [] st runningEffects w = Some (w, Inr runningEffects)"
| "runEffects_loop send (r # rs) st runningEffects w =
     (case run_effect send r st w of
        None \<Rightarrow> None
      | Some (w', Inl x) \<Rightarrow> Some (w', Inl x)
      | Some (w', Inr Nothing) \<Rightarrow> runEffects_loop send rs st runningEffects w'
      | Some (w', Inr PromiseLike) \<Rightarrow>
          runEffects_loop send rs st runningEffects
            (w'\<lparr>warnings := warnings w' @ [promise_warning]\<rparr>)
      | Some (w', Inr (Cleanup cleanup)) \<Rightarrow>
          runEffects_loop send rs st (runningEffects @ [r])
            (w'\<lparr>objects := (objects w')(r := (objects w' r)\<lparr>dispose := Some cleanup\<rparr>)\<rparr>))"

definition runEffects ::
  "'s send \<Rightarrow> nat list \<Rightarrow> state \<Rightarrow> 's world \<Rightarrow> ('s world \<times> (error + nat list)) option" where
  "runEffects send effs st w = runEffects_loop send effs st [] w"

text \<open>\<^verbatim>\<open>cleanEffects\<close> (service.ts 628-638); it returns the empty list.\<close>

fun cleanEffects ::
  "'s send \<Rightarrow> nat list \<Rightarrow> 's world \<Rightarrow> ('s world \<times> (error + nat list)) option" where
  "cleanEffects send [] w = Some (w, Inr [])"
| "cleanEffects send (r # rs) w =
     (case call_dispose send r w of
        None \<Rightarrow> None
      | Some (w', Some x) \<Rightarrow> Some (w', Inl x)
      | Some (w', None) \<Rightarrow> cleanEffects send rs w')"

text \<open>
  A property of the caller's \<open>send\<close> used below: it never removes a wrapper from an
  effect object. Nothing in the source deletes or clears \<open>effect.dispose\<close>.
\<close>

definition keeps_wrappers :: "'s send \<Rightarrow> bool" where
  "keeps_wrappers send \<longleftrightarrow>
     (\<forall>e w w' x q. send e w = Some (w', x) \<longrightarrow> dispose (objects w q) \<noteq> None
        \<longrightarrow> dispose (objects w' q) \<noteq> None)"

section \<open>The service\<close>

text \<open>
  The object \<^verbatim>\<open>createService\<close> returns (service.ts 32-69), with the two variables
  \<open>running\<close> and \<open>cbs\<close> of its closure. Subscribers are opaque: each is an identifier,
  and \<open>notified\<close> records the calls \<^verbatim>\<open>cb(state)\<close>. The effect objects that
  \<^verbatim>\<open>transition\<close> returns enter the store at the references from \<open>fresh\<close> on.
\<close>

record service =
  machine :: Machine
  state :: state
  prev :: "state option"
  pendingEffects :: "nat list"
  runningEffects :: "nat list"
  running :: bool
  cbs :: "nat list"
  notified :: "(nat \<times> state) list"
  fresh :: nat

definition store_effects :: "effect list \<Rightarrow> service world \<Rightarrow> service world" where
  "store_effects es w =
     (let n = fresh (session w)
      in w\<lparr>objects := (\<lambda>r. if n \<le> r \<and> r < n + length es
                             then effect.extend (es ! (r - n)) (effect_obj.fields None False)
                             else objects w r),
           session := (session w)\<lparr>pendingEffects := [n ..< n + length es],
                                   fresh := n + length es\<rparr>\<rparr>)"

text \<open>
  The local function \<^verbatim>\<open>runEffects\<close> of the service (service.ts 71-78). \<open>self\<close> is
  \<open>service.send\<close>, which the source hands to the effects.
\<close>

definition service_runEffects ::
  "service send \<Rightarrow> service world \<Rightarrow> (service world \<times> error option) option" where
  "service_runEffects self w =
     (case cleanEffects self (runningEffects (session w)) w of
        None \<Rightarrow> None
      | Some (w1, Inl x) \<Rightarrow> Some (w1, Some x)
      | Some (w1, Inr cleaned) \<Rightarrow>
          (let w2 = w1\<lparr>session := (session w1)\<lparr>runningEffects := cleaned\<rparr>\<rparr>
           in case runEffects self (pendingEffects (session w2)) (state (session w2)) w2 of
                None \<Rightarrow> None
              | Some (w3, Inl x) \<Rightarrow> Some (w3, Some x)
              | Some (w3, Inr started) \<Rightarrow>
                  Some (w3\<lparr>session := (session w3)\<lparr>runningEffects := started\<rparr>\<rparr>, None)))"

text \<open>
  \<^verbatim>\<open>send\<close> (service.ts 38-56). An exception of \<^verbatim>\<open>transition\<close> leaves the method
  before \<open>service.state\<close> is assigned.
\<close>

definition send :: "service send \<Rightarrow> service send" where
  "send self evt w =
     (if \<not> running (session w) then Some (w, None)
      else
        (let w1 = w\<lparr>session := (session w)\<lparr>prev := Some (state (session w))\<rparr>\<rparr>
         in case transition (machine (session w1)) (state (session w1)) evt of
              None \<Rightarrow> None
            | Some (Inl x) \<Rightarrow> Some (w1, Some x)
            | Some (Inr (st, effs)) \<Rightarrow>
                (let w2 = w1\<lparr>session := (session w1)\<lparr>state := st\<rparr>\<rparr>
                 in case (case effs of
                            None \<Rightarrow> Some (w2, None)
                          | Some es \<Rightarrow> service_runEffects self (store_effects es w2)) of
                      None \<Rightarrow> None
                    | Some (w3, Some x) \<Rightarrow> Some (w3, Some x)
                    | Some (w3, None) \<Rightarrow>
                        Some (w3\<lparr>session := (session w3)
                                 \<lparr>notified := notified (session w3)
                                     @ map (\<lambda>cb. (cb, st)) (cbs (session w3))\<rparr>\<rparr>, None))))"


section \<open>The reducer sequence, in the words of the specification\<close>

text \<open>
  The specification describes a run of reducers as a left-to-right pass over the context
  in which a reducer whose result is the sentinel leaves the context as it is. This is
  that description, on bare contexts; \<open>applyReducers\<close>, \<open>applyExit\<close> and
  \<open>applyEnter\<close> above are the source's loops, and are compared with it below.
\<close>

fun run_reducers :: "reducer list \<Rightarrow> context \<Rightarrow> event \<Rightarrow> error + context" where
  "run_reducers [] c ev = Inr c"
| "run_reducers (r # rs) c ev =
     (case r c ev of
        Inl x \<Rightarrow> Inl x
      | Inr ACTION \<Rightarrow> run_reducers rs c ev
      | Inr (Context c') \<Rightarrow> run_reducers rs c' ev)"

text \<open>All exit reducers and all enter reducers of a node, in declaration order.\<close>

definition exit_reducers :: "MachineState \<Rightarrow> reducer list" where
  "exit_reducers node = concat (map Exit.reducers (MachineState.exit node))"

definition enter_reducers :: "MachineState \<Rightarrow> reducer list" where
  "enter_reducers node = concat (map Enter.reducers (MachineState.enter node))"

section \<open>Example machines\<close>

text \<open>
  \<^verbatim>\<open>state("a", transition("go", "b"), exit({ assign: { x: 1 } }))\<close> and
  \<^verbatim>\<open>state("b", enter({ reduce: ctx => ({ ...ctx, name: "b-" + ctx.x }) }))\<close>.
\<close>

definition name_reducer :: reducer where
  "name_reducer =
     (\<lambda>c ev. Inr (Context (c ++ [''name'' \<mapsto> JStr (''b-'' @ ToString (field c ''x''))])))"

definition state_a :: MachineState where
  "state_a =
     \<lparr>MachineState.name = ''a'',
      transitions = [(''go'', [Transition ''go'' ''b'' [] []])],
      immediates = [],
      enter = [],
      exit = [createExit (no_options\<lparr>assign := One (AssignValue [''x'' \<mapsto> JNum 1])\<rparr>)]\<rparr>"

definition state_b :: MachineState where
  "state_b =
     \<lparr>MachineState.name = ''b'',
      transitions = [],
      immediates = [],
      enter = [createEnter (no_options\<lparr>reduce := One name_reducer\<rparr>)],
      exit = []\<rparr>"

definition machine_ab :: Machine where
  "machine_ab = \<lparr>states = [(''a'', state_a), (''b'', state_b)]\<rparr>"

definition in_a :: state where
  "in_a = \<lparr>state.name = JStr ''a'', context = Map.empty, final = False\<rparr>"

text \<open>
  A chain: \<open>start\<close> goes to \<open>one\<close> on \<open>go\<close>; \<open>one\<close> and \<open>two\<close> each have an
  unguarded immediate to the next state; \<open>three\<close> has none. Each state has an enter
  hook with an assignment and an effect, and \<open>start\<close> has an exit hook.
\<close>

definition effect_one :: effect_fn where
  "effect_one = (\<lambda>c ev. Run [] (Inr (Cleanup [EventName ''one-stopped''])))"

definition effect_two :: effect_fn where
  "effect_two = (\<lambda>c ev. Run [] (Inr Nothing))"

definition effect_three :: effect_fn where
  "effect_three = (\<lambda>c ev. Run [] (Inr (Cleanup [EventName ''late'', EventName ''later''])))"

definition entering :: "string \<Rightarrow> effect_fn \<Rightarrow> Enter" where
  "entering k f =
     createEnter (no_options\<lparr>assign := One (AssignValue [k \<mapsto> JBool True]),
                             effect := One f\<rparr>)"

definition chain_start :: MachineState where
  "chain_start =
     \<lparr>MachineState.name = ''start'',
      transitions = [(''go'', [Transition ''go'' ''one'' [] []])],
      immediates = [],
      enter = [],
      exit = [createExit (no_options\<lparr>assign := One (AssignValue [''left'' \<mapsto> JBool True])\<rparr>)]\<rparr>"

definition chain_one :: MachineState where
  "chain_one =
     \<lparr>MachineState.name = ''one'', transitions = [],
      immediates = [Immediate ''two'' [] []],
      enter = [entering ''one'' effect_one], exit = []\<rparr>"

definition chain_two :: MachineState where
  "chain_two =
     \<lparr>MachineState.name = ''two'', transitions = [],
      immediates = [Immediate ''three'' [] []],
      enter = [entering ''two'' effect_two], exit = []\<rparr>"

definition chain_three :: MachineState where
  "chain_three =
     \<lparr>MachineState.name = ''three'', transitions = [], immediates = [],
      enter = [entering ''three'' effect_three], exit = []\<rparr>"

definition chain_machine :: Machine where
  "chain_machine =
     \<lparr>states = [(''start'', chain_start), (''one'', chain_one), (''two'', chain_two),
                (''three'', chain_three)]\<rparr>"

definition in_start :: state where
  "in_start = \<lparr>state.name = JStr ''start'', context = Map.empty, final = False\<rparr>"

text \<open>
  A counter: \<^verbatim>\<open>state("counting", internal("inc", { reduce: increment }),
  immediate("done", { guard: ctx => ctx.count >= 2 }))\<close> and
  \<^verbatim>\<open>state("done", enter({ effect }))\<close>.
\<close>

definition increment :: reducer where
  "increment =
     (\<lambda>c ev. Inr (Context (c(''count'' \<mapsto>
        (case field c ''count'' of JNum n \<Rightarrow> JNum (n + 1) | v \<Rightarrow> JUndefined)))))"

definition enough :: guard where
  "enough = (\<lambda>c ev. Inr (case field c ''count'' of JNum n \<Rightarrow> 2 \<le> n | v \<Rightarrow> False))"

definition counting :: MachineState where
  "counting =
     \<lparr>MachineState.name = ''counting'',
      transitions = [(''inc'', [Internal ''inc'' [] [increment]])],
      immediates = [Immediate ''done'' [enough] []],
      enter = [], exit = []\<rparr>"

definition done_state :: MachineState where
  "done_state =
     \<lparr>MachineState.name = ''done'', transitions = [], immediates = [],
      enter = [createEnter (no_options\<lparr>effect := One effect_two\<rparr>)], exit = []\<rparr>"

definition counter_machine :: Machine where
  "counter_machine = \<lparr>states = [(''counting'', counting), (''done'', done_state)]\<rparr>"

definition counting_at :: "int \<Rightarrow> state" where
  "counting_at n =
     \<lparr>state.name = JStr ''counting'', context = [''count'' \<mapsto> JNum n], final = False\<rparr>"

text \<open>
  An option object with a \<open>reduce\<close> and an \<open>assign\<close> on the same property:
  \<^verbatim>\<open>{ reduce: ctx => ({ ...ctx, x: 2 }), assign: { x: 1 } }\<close>.
\<close>

definition set_x_2 :: reducer where
  "set_x_2 = (\<lambda>c ev. Inr (Context (c ++ [''x'' \<mapsto> JNum 2])))"

definition reduce_and_assign :: options where
  "reduce_and_assign =
     no_options\<lparr>reduce := One set_x_2, assign := One (AssignValue [''x'' \<mapsto> JNum 1])\<rparr>"







text \<open>
  A \<open>send\<close> that only counts its calls, and a world whose effect objects all run
  \<open>effect_three\<close>, the cleanup of which sends two events; \<open>started_world\<close> is that
  world once the effect at reference 0 has been started.
\<close>

definition counting_send :: "nat send" where
  "counting_send = (\<lambda>evt w. Some (w\<lparr>session := Suc (session w)\<rparr>, None))"

definition late_world :: "nat world" where
  "late_world =
     \<lparr>objects = (\<lambda>r. \<lparr>run = EffectFn effect_three, event = [''type'' \<mapsto> JStr ''go''],
                       dispose = None, disposed = False\<rparr>),
      warnings = [], session = 0\<rparr>"

definition started_world :: "nat world" where
  "started_world =
     late_world\<lparr>objects := (objects late_world)
        (0 := (objects late_world 0)
                \<lparr>dispose := Some [EventName ''late'', EventName ''later'']\<rparr>)\<rparr>"

text \<open>A store with a context at address 0 and an event at address 1.\<close>

definition two_objects :: store where
  "two_objects = [[''a'' \<mapsto> JNum 1], [''type'' \<mapsto> JStr ''go'', ''b'' \<mapsto> JNum 2]]"

section \<open>The source's loops and the specification's reducer sequence\<close>

lemma applyReducers_run:
  "applyReducers s ev rs =
     (case run_reducers rs (context s) ev of Inl x \<Rightarrow> Inl x | Inr c \<Rightarrow> Inr (s\<lparr>context := c\<rparr>))"
  by (induction rs arbitrary: s) (auto split: sum.splits reduced.splits)

lemma run_reducers_append:
  "run_reducers (rs @ rs') c ev =
     (case run_reducers rs c ev of Inl x \<Rightarrow> Inl x | Inr c1 \<Rightarrow> run_reducers rs' c1 ev)"
  by (induction rs arbitrary: c) (auto split: sum.splits reduced.splits)

lemma applyExit_run:
  "applyExit s ev xs =
     (case run_reducers (concat (map Exit.reducers xs)) (context s) ev of
        Inl x \<Rightarrow> Inl x | Inr c \<Rightarrow> Inr (s\<lparr>context := c\<rparr>))"
  by (induction xs arbitrary: s)
     (auto simp: applyReducers_run run_reducers_append split: sum.splits)

lemma applyEnter_run:
  "applyEnter s ev xs =
     (case run_reducers (concat (map Enter.reducers xs)) (context s) ev of
        Inl x \<Rightarrow> Inl x | Inr c \<Rightarrow> Inr (s\<lparr>context := c\<rparr>))"
  by (induction xs arbitrary: s)
     (auto simp: applyReducers_run run_reducers_append split: sum.splits)

lemma run_reducers_append_Inr:
  "run_reducers (rs @ rs') c ev = Inr c2 \<longleftrightarrow>
     (\<exists>c1. run_reducers rs c ev = Inr c1 \<and> run_reducers rs' c1 ev = Inr c2)"
  by (auto simp: run_reducers_append split: sum.splits)

text \<open>
  One call of \<open>applyTransition\<close> for an external transition between two nodes of the
  machine, when no reducer throws.
\<close>

lemma applyTransition_external:
  assumes "\<not> isInternal T"
    and "get (states m) (ToString (state.name cur)) = Own a"
    and "get (states m) (trans.target T) = Own b"
    and "run_reducers (exit_reducers a @ trans.reducers T @ enter_reducers b) (context cur) ev
           = Inr c'"
  shows "applyTransition m cur ev T =
     (case first_candidate c' ev (MachineState.immediates b) of
        Inl x \<Rightarrow> Some (Inl x)
      | Inr None \<Rightarrow>
          Some (Inr (settle T b (cur\<lparr>state.name := JStr (trans.target T), context := c'\<rparr>) ev))
      | Inr (Some candidate) \<Rightarrow>
          applyTransition m (cur\<lparr>state.name := JStr (trans.target T), context := c'\<rparr>) ev
            candidate)"
proof -
  from assms(4) obtain c1 c2 where
    c1: "run_reducers (exit_reducers a) (context cur) ev = Inr c1" and
    c2: "run_reducers (trans.reducers T) c1 ev = Inr c2" and
    c3: "run_reducers (enter_reducers b) c2 ev = Inr c'"
    by (auto simp: run_reducers_append_Inr)
  show ?thesis
    using assms(1-3) c1 c2 c3
    by (subst applyTransition.simps)
       (simp add: applyExit_run applyReducers_run applyEnter_run exit_reducers_def
          enter_reducers_def Let_def)
qed

text \<open>One call of \<open>applyTransition\<close> for an internal transition, when no reducer throws.\<close>

lemma applyTransition_internal:
  assumes "isInternal T"
    and "get (states m) (ToString (state.name cur)) = Own S"
    and "run_reducers (trans.reducers T) (context cur) ev = Inr c'"
  shows "applyTransition m cur ev T =
     (case first_candidate c' ev (MachineState.immediates S) of
        Inl x \<Rightarrow> Some (Inl x)
      | Inr None \<Rightarrow> Some (Inr (settle T S (cur\<lparr>context := c'\<rparr>) ev))
      | Inr (Some candidate) \<Rightarrow> applyTransition m (cur\<lparr>context := c'\<rparr>) ev candidate)"
  using assms
  by (subst applyTransition.simps) (simp add: applyReducers_run Let_def)

lemma settle_state:
  "settle T node s ev =
     (s\<lparr>final := (MachineState.transitions node = [] \<and> MachineState.immediates node = [])
                  \<or> final s\<rparr>,
      if isInternal T then None else Some (collectEffects ev (MachineState.enter node)))"
  by (cases s) (auto simp: settle_def)

text \<open>The definitions that a run of the builders and of the engine on given data unfolds.\<close>

lemmas engine_defs =
  createExit_def createEnter_def merge_def exitHooks_def enterHooks_def
  transitionHooks_def no_options_def empty_merged_def exit_reducers_def enter_reducers_def
  get_def Object_prototype_def checkGuards_def field_def

section \<open>Immediate chains\<close>

text \<open>
  C1. Let an external transition \<open>T\<close> lead from the current node \<open>S\<close> into \<open>A\<close>, let the
  first immediate of \<open>A\<close> whose guards pass on the context reached in \<open>A\<close> lead to \<open>B\<close>,
  the first one of \<open>B\<close> whose guards pass lead to \<open>C\<close>, and let no immediate of \<open>C\<close>
  pass. Then \<open>applyTransition\<close> returns the state named \<open>C\<close>. Its effects are those of
  the enter hooks of \<open>C\<close> alone. Its context is the result of running, in this order, the
  exit reducers of \<open>S\<close>, the reducers of \<open>T\<close>, the enter reducers of \<open>A\<close>, the exit
  reducers of \<open>A\<close>, the reducers of the first immediate, the enter reducers of \<open>B\<close>, the
  exit reducers of \<open>B\<close>, the reducers of the second immediate and the enter reducers of
  \<open>C\<close>. The call on each immediate is the whole result of the call before it.
\<close>

theorem immediate_chain_effects:
  assumes "\<not> isInternal T" and "trans.target T = A"
    and "get (states m) (ToString (state.name cur)) = Own S"
    and "get (states m) A = Own nA" and "get (states m) B = Own nB"
    and "get (states m) C = Own nC"
    and "run_reducers (exit_reducers S @ trans.reducers T @ enter_reducers nA) (context cur) ev
           = Inr c1"
    and "first_candidate c1 ev (MachineState.immediates nA) = Inr (Some (Immediate B gAB rAB))"
    and "run_reducers (exit_reducers nA @ rAB @ enter_reducers nB) c1 ev = Inr c2"
    and "first_candidate c2 ev (MachineState.immediates nB) = Inr (Some (Immediate C gBC rBC))"
    and "run_reducers (exit_reducers nB @ rBC @ enter_reducers nC) c2 ev = Inr c3"
    and "first_candidate c3 ev (MachineState.immediates nC) = Inr None"
  shows "applyTransition m cur ev T =
           Some (Inr (\<lparr>state.name = JStr C, context = c3,
                       final = (MachineState.transitions nC = []
                                \<and> MachineState.immediates nC = [] \<or> final cur)\<rparr>,
                      Some (collectEffects ev (MachineState.enter nC))))
         \<and> applyTransition m cur ev T =
             applyTransition m (cur\<lparr>state.name := JStr A, context := c1\<rparr>) ev
               (Immediate B gAB rAB)
         \<and> applyTransition m (cur\<lparr>state.name := JStr A, context := c1\<rparr>) ev
               (Immediate B gAB rAB) =
             applyTransition m (cur\<lparr>state.name := JStr B, context := c2\<rparr>) ev
               (Immediate C gBC rBC)"
proof -
  let ?sA = "cur\<lparr>state.name := JStr A, context := c1\<rparr>"
  let ?sB = "cur\<lparr>state.name := JStr B, context := c2\<rparr>"
  let ?iAB = "Immediate B gAB rAB" and ?iBC = "Immediate C gBC rBC"
  have step1: "applyTransition m cur ev T = applyTransition m ?sA ev ?iAB"
    using applyTransition_external[of T m cur S nA ev c1] assms by simp
  have step2: "applyTransition m ?sA ev ?iAB = applyTransition m ?sB ev ?iBC"
    using applyTransition_external[of ?iAB m ?sA nA nB ev c2] assms by simp
  have step3: "applyTransition m ?sB ev ?iBC =
      Some (Inr (settle ?iBC nC (cur\<lparr>state.name := JStr C, context := c3\<rparr>) ev))"
    using applyTransition_external[of ?iBC m ?sB nB nC ev c3] assms by simp
  have "settle ?iBC nC (cur\<lparr>state.name := JStr C, context := c3\<rparr>) ev =
      (\<lparr>state.name = JStr C, context = c3,
        final = (MachineState.transitions nC = [] \<and> MachineState.immediates nC = []
                 \<or> final cur)\<rparr>,
       Some (collectEffects ev (MachineState.enter nC)))"
    by (cases cur) (auto simp: settle_def)
  with step1 step2 step3 show ?thesis by simp
qed

text \<open>
  On the chain machine, \<open>go\<close> from \<open>start\<close> settles in \<open>three\<close> with the effect of
  \<open>three\<close> only, and all four assignments are in the context.
\<close>

theorem immediate_chain_effects_witness:
  "applyTransition chain_machine in_start [''type'' \<mapsto> JStr ''go'']
     (Transition ''go'' ''one'' [] []) =
     Some (Inr (\<lparr>state.name = JStr ''three'',
                 context = [''left'' \<mapsto> JBool True, ''one'' \<mapsto> JBool True,
                            ''two'' \<mapsto> JBool True, ''three'' \<mapsto> JBool True],
                 final = True\<rparr>,
                Some [\<lparr>run = EffectFn effect_three, event = [''type'' \<mapsto> JStr ''go'']\<rparr>]))"
proof -
  let ?ev = "[''type'' \<mapsto> JStr ''go'']"
  let ?c1 = "[''left'' \<mapsto> JBool True, ''one'' \<mapsto> JBool True]"
  let ?c2 = "[''left'' \<mapsto> JBool True, ''one'' \<mapsto> JBool True, ''two'' \<mapsto> JBool True]"
  let ?c3 = "[''left'' \<mapsto> JBool True, ''one'' \<mapsto> JBool True, ''two'' \<mapsto> JBool True,
              ''three'' \<mapsto> JBool True]"
  have r1: "run_reducers (exit_reducers chain_start
              @ trans.reducers (Transition ''go'' ''one'' [] [])
              @ enter_reducers chain_one) (context in_start) ?ev = Inr ?c1"
    by (simp add: chain_machine_def chain_start_def chain_one_def chain_two_def chain_three_def in_start_def entering_def engine_defs)
  have r2: "run_reducers (exit_reducers chain_one @ [] @ enter_reducers chain_two) ?c1 ?ev
              = Inr ?c2"
    by (simp add: chain_machine_def chain_start_def chain_one_def chain_two_def chain_three_def in_start_def entering_def engine_defs)
  have r3: "run_reducers (exit_reducers chain_two @ [] @ enter_reducers chain_three) ?c2 ?ev
              = Inr ?c3"
    by (simp add: chain_machine_def chain_start_def chain_one_def chain_two_def chain_three_def in_start_def entering_def engine_defs)
  have g: "get (states chain_machine) (ToString (state.name in_start)) = Own chain_start"
    "get (states chain_machine) ''one'' = Own chain_one"
    "get (states chain_machine) ''two'' = Own chain_two"
    "get (states chain_machine) ''three'' = Own chain_three"
    by (simp_all add: chain_machine_def get_def in_start_def)
  have f1: "first_candidate ?c1 ?ev (MachineState.immediates chain_one)
              = Inr (Some (Immediate ''two'' [] []))"
    by (simp add: chain_one_def checkGuards_def)
  have f2: "first_candidate ?c2 ?ev (MachineState.immediates chain_two)
              = Inr (Some (Immediate ''three'' [] []))"
    by (simp add: chain_two_def checkGuards_def)
  have f3: "first_candidate ?c3 ?ev (MachineState.immediates chain_three) = Inr None"
    by (simp add: chain_three_def)
  have ext: "\<not> isInternal (Transition ''go'' ''one'' [] [])"
    "trans.target (Transition ''go'' ''one'' [] []) = ''one''"
    by simp_all
  from immediate_chain_effects[OF ext g r1 f1 r2 f2 r3 f3]
  show ?thesis
    by (simp add: chain_three_def entering_def createEnter_def merge_def enterHooks_def
         no_options_def empty_merged_def in_start_def)
qed

section \<open>Order of reducers on an external transition\<close>

text \<open>
  C5. For an external transition \<open>T\<close> from node \<open>a\<close> to node \<open>b\<close>, the context of the
  result is that of running the exit reducers of \<open>a\<close>, then the reducers of \<open>T\<close>, then
  the enter reducers of \<open>b\<close>, each list from left to right, a reducer that returns the
  sentinel leaving the context as it is; the name of the result is \<open>b\<close>. (This is the
  settled case: no immediate of \<open>b\<close> passes its guards on that context.)
\<close>

theorem external_transition_reducer_order:
  assumes "\<not> isInternal T"
    and "get (states m) (ToString (state.name cur)) = Own a"
    and "get (states m) (trans.target T) = Own b"
    and "run_reducers (exit_reducers a @ trans.reducers T @ enter_reducers b) (context cur) ev
           = Inr c'"
    and "first_candidate c' ev (MachineState.immediates b) = Inr None"
  shows "applyTransition m cur ev T =
     Some (Inr (\<lparr>state.name = JStr (trans.target T), context = c',
                 final = (MachineState.transitions b = [] \<and> MachineState.immediates b = []
                          \<or> final cur)\<rparr>,
                Some (collectEffects ev (MachineState.enter b))))"
proof -
  have "applyTransition m cur ev T =
      Some (Inr (settle T b (cur\<lparr>state.name := JStr (trans.target T), context := c'\<rparr>) ev))"
    using applyTransition_external[OF assms(1-4)] assms(5) by simp
  then show ?thesis
    using assms(1) by (cases cur) (auto simp: settle_def)
qed

text \<open>
  The example of the claim: after \<open>go\<close> from \<open>a\<close>, \<open>context.x\<close> is \<open>1\<close> and
  \<open>context.name\<close> is \<open>b-1\<close>; \<open>transition\<close> dispatches \<open>go\<close> to that call.
\<close>

theorem external_transition_reducer_order_witness:
  "applyTransition machine_ab in_a [''type'' \<mapsto> JStr ''go''] (Transition ''go'' ''b'' [] []) =
     Some (Inr (\<lparr>state.name = JStr ''b'',
                 context = [''x'' \<mapsto> JNum 1, ''name'' \<mapsto> JStr ''b-1''], final = True\<rparr>,
                Some []))
   \<and> transition machine_ab in_a (EventName ''go'') =
       applyTransition machine_ab in_a [''type'' \<mapsto> JStr ''go'']
         (Transition ''go'' ''b'' [] [])"
proof -
  have "run_reducers (exit_reducers state_a @ trans.reducers (Transition ''go'' ''b'' [] [])
          @ enter_reducers state_b) (context in_a) [''type'' \<mapsto> JStr ''go'']
        = Inr [''x'' \<mapsto> JNum 1, ''name'' \<mapsto> JStr ''b-1'']"
    by (simp add: machine_ab_def state_a_def state_b_def in_a_def name_reducer_def engine_defs digits.simps)
  from external_transition_reducer_order[where m = machine_ab and cur = in_a and a = state_a
      and b = state_b, OF _ _ _ this]
  show ?thesis
    by (simp add: machine_ab_def state_a_def state_b_def in_a_def name_reducer_def engine_defs transition_def)
qed

section \<open>Final states\<close>

lemma final_of_applyTransition:
  assumes "applyTransition m cur ev T = Some y"
  shows "\<forall>s effs. y = Inr (s, effs) \<longrightarrow>
     (\<exists>node. get (states m) (ToString (state.name s)) = Own node \<and>
       final s = (MachineState.transitions node = [] \<and> MachineState.immediates node = []
                  \<or> final cur))"
  apply (rule applyTransition.raw_induct[OF _ assms])
  subgoal premises prems for f machine cur ev transition y
    using prems(2)
    apply (simp add: Let_def applyExit_run applyReducers_run applyEnter_run
             split: sum.splits property.splits option.splits if_splits)
    apply (auto simp: settle_def dest!: prems(1))
    done
  done

text \<open>
  C8. Whatever state \<open>applyTransition\<close> returns, its name is that of a node of the
  machine, the node in which the chain settled, and its \<open>final\<close> flag is set when that
  node has no transitions and no immediates; when the node has a transition or an
  immediate, the flag is the one the caller's state already had. Nodes carry no such
  flag: it is computed here.
\<close>

theorem final_state_detection:
  assumes "applyTransition m cur ev T = Some (Inr (s, effs))"
  shows "\<exists>node. get (states m) (ToString (state.name s)) = Own node \<and>
       final s = (MachineState.transitions node = [] \<and> MachineState.immediates node = []
                  \<or> final cur)"
  using final_of_applyTransition[OF assms] by simp

text \<open>In the two-state machine, \<open>b\<close> has neither transitions nor immediates.\<close>

theorem final_state_detection_witness:
  "applyTransition machine_ab in_a [''type'' \<mapsto> JStr ''go''] (Transition ''go'' ''b'' [] []) =
     Some (Inr (\<lparr>state.name = JStr ''b'',
                 context = [''x'' \<mapsto> JNum 1, ''name'' \<mapsto> JStr ''b-1''], final = True\<rparr>,
                Some []))
   \<and> (\<exists>node. get (states machine_ab) ''b'' = Own node \<and>
         MachineState.transitions node = [] \<and> MachineState.immediates node = [])"
proof -
  have run: "applyTransition machine_ab in_a [''type'' \<mapsto> JStr ''go'']
      (Transition ''go'' ''b'' [] []) =
     Some (Inr (\<lparr>state.name = JStr ''b'',
                 context = [''x'' \<mapsto> JNum 1, ''name'' \<mapsto> JStr ''b-1''], final = True\<rparr>,
                Some []))"
    by (subst applyTransition.simps)
       (simp add: machine_ab_def state_a_def state_b_def in_a_def name_reducer_def engine_defs digits.simps settle_def Let_def)
  from final_state_detection[OF run] run
  show ?thesis by (simp add: in_a_def)
qed


section \<open>Internal transitions\<close>

lemma get_Own_nonempty: "get d k = Own v \<Longrightarrow> d \<noteq> []"
  by (auto simp: get_def split: option.splits if_splits)

text \<open>
  C2, as amended. Let the dispatch of an event (not the initial sentinel) in node \<open>S\<close>
  select an internal transition \<open>T\<close>, and let the reducers of \<open>T\<close> take the context to
  \<open>c'\<close>. Neither exit nor enter reducers run. The immediates of \<open>S\<close> are then scanned in
  declaration order on \<open>c'\<close>. If none passes, the result is the state with its name and
  \<open>final\<close> flag as they were, the context \<open>c'\<close>, and \<^verbatim>\<open>null\<close> effects. If one passes,
  the result is that of applying the first such immediate to the state with context
  \<open>c'\<close>: an external transition, which has effects and another name.
\<close>

theorem internal_transition_keeps_state:
  assumes "field (toEventObject e) ''type'' \<noteq> JNull"
    and "get (states m) (ToString (state.name st)) = Own S"
    and "get (MachineState.transitions S) (ToString (field (toEventObject e) ''type''))
           = Own candidates"
    and "first_candidate (context st) (toEventObject e) candidates = Inr (Some T)"
    and "isInternal T"
    and "run_reducers (trans.reducers T) (context st) (toEventObject e) = Inr c'"
  shows "transition m st e =
     (case first_candidate c' (toEventObject e) (MachineState.immediates S) of
        Inl x \<Rightarrow> Some (Inl x)
      | Inr None \<Rightarrow> Some (Inr (st\<lparr>context := c'\<rparr>, None))
      | Inr (Some candidate) \<Rightarrow>
          applyTransition m (st\<lparr>context := c'\<rparr>) (toEventObject e) candidate)"
proof -
  have "transition m st e = applyTransition m st (toEventObject e) T"
    using assms(1-4) by (simp add: transition_def Let_def)
  moreover have "MachineState.transitions S \<noteq> []"
    using assms(3) by (rule get_Own_nonempty)
  ultimately show ?thesis
    using applyTransition_internal[OF assms(5,2,6)] assms(5)
    by (simp add: settle_state split: sum.splits option.splits)
qed

text \<open>The counter at 0: \<open>inc\<close> takes it to 1, below the guard of the immediate.\<close>

theorem internal_transition_keeps_state_witness:
  "transition counter_machine (counting_at 0) (EventName ''inc'') =
     Some (Inr (\<lparr>state.name = JStr ''counting'', context = [''count'' \<mapsto> JNum 1],
                 final = False\<rparr>, None))"
proof -
  have "run_reducers (trans.reducers (Internal ''inc'' [] [increment]))
      (context (counting_at 0)) (toEventObject (EventName ''inc''))
      = Inr [''count'' \<mapsto> JNum 1]"
    by (simp add: counter_machine_def counting_def done_state_def counting_at_def increment_def enough_def engine_defs)
  from internal_transition_keeps_state[where m = counter_machine and S = counting
      and candidates = "[Internal ''inc'' [] [increment]]", OF _ _ _ _ _ this]
  show ?thesis
    by (simp add: counter_machine_def counting_def done_state_def counting_at_def increment_def enough_def engine_defs)
qed

text \<open>
  The counter at 1: the dispatch of \<open>inc\<close> selects the internal transition, the count
  becomes 2, the immediate to \<open>done\<close> passes, and \<open>transition\<close> returns the state
  \<open>done\<close> with a list of effects.
\<close>

theorem internal_transition_then_immediate:
  "first_candidate (context (counting_at 1)) [''type'' \<mapsto> JStr ''inc'']
       [Internal ''inc'' [] [increment]]
     = Inr (Some (Internal ''inc'' [] [increment]))
   \<and> transition counter_machine (counting_at 1) (EventName ''inc'') =
     Some (Inr (\<lparr>state.name = JStr ''done'', context = [''count'' \<mapsto> JNum 2],
                 final = True\<rparr>,
                Some [\<lparr>run = EffectFn effect_two, event = [''type'' \<mapsto> JStr ''inc'']\<rparr>]))"
  by (simp add: transition_def counter_machine_def counting_def done_state_def counting_at_def increment_def enough_def engine_defs applyTransition.simps settle_def Let_def)

section \<open>Unmatched events\<close>

text \<open>
  When the name of the state and the type of the event are looked up as own properties
  or not found at all, an event without a passing candidate changes nothing.
\<close>

lemma transition_unmatched:
  assumes "field (toEventObject e) ''type'' \<noteq> JNull"
    and "case get (states m) (ToString (state.name st)) of
           Own S \<Rightarrow>
             (case get (MachineState.transitions S)
                     (ToString (field (toEventObject e) ''type'')) of
                Own candidates \<Rightarrow>
                  first_candidate (context st) (toEventObject e) candidates = Inr None
              | Inherited \<Rightarrow> False
              | Missing \<Rightarrow> True)
         | Inherited \<Rightarrow> ToString (field (toEventObject e) ''type'') \<notin> set Object_prototype
         | Missing \<Rightarrow> ToString (field (toEventObject e) ''type'') \<notin> set Object_prototype"
  shows "transition m st e = Some (Inr (st, None))"
  using assms
  by (auto simp: transition_def Let_def get_def split: property.splits option.splits if_splits)

text \<open>
  C6 fails on the code for an event named like a member of \<^verbatim>\<open>Object.prototype\<close>. In
  the two-state machine, \<open>a\<close> has no transition for \<open>constructor\<close>, but
  \<^verbatim>\<open>transitions["constructor"]\<close> is the inherited function, which is truthy and not
  iterable, and the loop over the candidates raises \<open>TypeError\<close>.
\<close>

theorem unmatched_inherited_event_throws:
  "transition machine_ab in_a (EventName ''constructor'') = Some (Inl TypeError)"
  by (simp add: transition_def machine_ab_def state_a_def state_b_def in_a_def name_reducer_def engine_defs)

section \<open>The order of lowered hooks\<close>

text \<open>
  C4, as amended. For the three lists of allowed hooks, the reducers that \<open>merge\<close>
  builds from one option object are its lowered \<open>assign\<close> entries, then its \<open>reduce\<close>
  entries, then its lowered \<open>action\<close> entries, each kind in the order it was given:
  the order of the kinds is that of the list of allowed hooks, which starts with
  \<open>assign\<close>.
\<close>

theorem merge_reducers_order:
  "merged.reducers (merge opts transitionHooks) =
     map assignToReduce (toArray (assign opts)) @ toArray (reduce opts)
     @ map actionToReduce (toArray (action opts))
   \<and> merged.reducers (merge opts enterHooks) =
     map assignToReduce (toArray (assign opts)) @ toArray (reduce opts)
     @ map actionToReduce (toArray (action opts))
   \<and> merged.reducers (merge opts exitHooks) =
     map assignToReduce (toArray (assign opts)) @ toArray (reduce opts)
     @ map actionToReduce (toArray (action opts))"
  by (simp add: merge_def transitionHooks_def enterHooks_def exitHooks_def empty_merged_def)

text \<open>
  With \<^verbatim>\<open>{ reduce: ctx => ({ ...ctx, x: 2 }), assign: { x: 1 } }\<close> the lowered
  assign comes first, so the reducers leave \<open>x = 2\<close>; with the assign after the reduce
  entry they would leave \<open>x = 1\<close>.
\<close>

theorem merge_assign_before_reduce:
  "merged.reducers (merge reduce_and_assign transitionHooks) =
     [assignToReduce (AssignValue [''x'' \<mapsto> JNum 1]), set_x_2]
   \<and> run_reducers (merged.reducers (merge reduce_and_assign transitionHooks))
         Map.empty Map.empty
       = Inr [''x'' \<mapsto> JNum 2]
   \<and> run_reducers [set_x_2, assignToReduce (AssignValue [''x'' \<mapsto> JNum 1])]
         Map.empty Map.empty
       = Inr [''x'' \<mapsto> JNum 1]"
  by (simp add: merge_def transitionHooks_def empty_merged_def reduce_and_assign_def
        no_options_def set_x_2_def)

section \<open>The event name of a transition\<close>

text \<open>
  C9, as amended. \<open>createTransition\<close> and \<open>createInternal\<close> fail with the error that
  names the first argument exactly when that argument is not a string; every string is
  accepted as the name of the event.
\<close>

theorem event_name_must_be_string:
  "(createTransition ev tgt opts =
      Inl (Error ''First argument of the transition must be the name of the event''))
     = (typeof ev \<noteq> ''string'')
   \<and> (createInternal ev opts =
      Inl (Error ''First argument of the internal transition must be the name of the event''))
     = (typeof ev \<noteq> ''string'')
   \<and> (typeof ev = ''string'' \<longrightarrow> (\<exists>t. createInternal ev opts = Inr t))"
  by (auto simp: createTransition_def createInternal_def assertString_def Let_def
        split: sum.splits)

text \<open>\<^verbatim>\<open>transition(1)\<close> and \<^verbatim>\<open>internal(1)\<close>; and the name of the event as a string.\<close>

theorem event_name_must_be_string_witness:
  "createTransition (JNum 1) JUndefined no_options =
      Inl (Error ''First argument of the transition must be the name of the event'')
   \<and> createInternal (JNum 1) no_options =
      Inl (Error ''First argument of the internal transition must be the name of the event'')
   \<and> typeof (JStr ''go'') = ''string''
   \<and> (\<exists>t. createInternal (JStr ''go'') no_options = Inr t)"
  using event_name_must_be_string[of "JNum 1" JUndefined no_options]
    event_name_must_be_string[of "JStr ''go''" JUndefined no_options]
  by simp

text \<open>The empty string is a string: both builders accept it.\<close>

theorem empty_event_name_accepted:
  "createTransition (JStr []) (JStr ''b'') no_options = Inr (Transition [] ''b'' [] [])
   \<and> createInternal (JStr []) no_options = Inr (Internal [] [] [])"
  by (simp add: createTransition_def createInternal_def assertString_def merge_def
        transitionHooks_def no_options_def empty_merged_def)

section \<open>Hook exceptions and send\<close>

text \<open>
  A guard that throws during dispatch, or a reducer or lowered action that throws while
  the transition is applied, ends \<open>transition\<close> with that exception.
\<close>

lemma transition_guard_throws:
  assumes "field (toEventObject e) ''type'' \<noteq> JNull"
    and "get (states m) (ToString (state.name st)) = Own S"
    and "get (MachineState.transitions S) (ToString (field (toEventObject e) ''type''))
           = Own candidates"
    and "first_candidate (context st) (toEventObject e) candidates = Inl x"
  shows "transition m st e = Some (Inl x)"
  using assms by (simp add: transition_def Let_def)

lemma applyTransition_reducer_throws:
  assumes "\<not> isInternal T"
    and "get (states m) (ToString (state.name cur)) = Own a"
    and "get (states m) (trans.target T) = Own b"
    and "run_reducers (exit_reducers a @ trans.reducers T @ enter_reducers b) (context cur) ev
           = Inl x"
  shows "applyTransition m cur ev T = Some (Inl x)"
  using assms
  by (subst applyTransition.simps)
     (auto simp: applyExit_run applyReducers_run applyEnter_run exit_reducers_def
          enter_reducers_def Let_def run_reducers_append split: sum.splits)

lemma action_throws: "act c ev = Inl x \<Longrightarrow> actionToReduce act c ev = Inl x"
  by (simp add: actionToReduce_def)



section \<open>Sending through a disposed effect\<close>

lemma calls_safeSend_disposed:
  "disposed (objects w r) \<Longrightarrow>
     calls (safeSend sender r) es w =
       Some (w\<lparr>warnings := warnings w @ replicate (length es) disposed_warning\<rparr>, None)"
proof (induction es arbitrary: w)
  case Nil
  then show ?case by simp
next
  case (Cons e es)
  let ?w = "w\<lparr>warnings := warnings w @ [disposed_warning]\<rparr>"
  have "calls (safeSend sender r) (e # es) w = calls (safeSend sender r) es ?w"
    using Cons.prems by (simp add: safeSend_def)
  also have "\<dots> =
      Some (?w\<lparr>warnings := warnings ?w @ replicate (length es) disposed_warning\<rparr>, None)"
    using Cons.prems by (intro Cons.IH) simp
  finally show ?case by (simp add: replicate_app_Cons_same)
qed

lemma dispose_wrapper_swallows:
  "dispose_wrapper sender r cleanup w =
     Some (w\<lparr>objects := (objects w)(r := (objects w r)\<lparr>disposed := True\<rparr>),
             warnings := warnings w @ replicate (length cleanup) disposed_warning\<rparr>, None)"
  unfolding dispose_wrapper_def
  by (subst calls_safeSend_disposed) simp_all

lemma keeps_wrappersD:
  "keeps_wrappers sender \<Longrightarrow> sender e w = Some (w', x) \<Longrightarrow> dispose (objects w q) \<noteq> None
     \<Longrightarrow> dispose (objects w' q) \<noteq> None"
  unfolding keeps_wrappers_def by blast

lemma calls_keeps_dispose:
  assumes "keeps_wrappers sender"
  shows "calls (safeSend sender r) es w = Some (w', x) \<Longrightarrow> dispose (objects w q) \<noteq> None
           \<Longrightarrow> dispose (objects w' q) \<noteq> None"
proof (induction es arbitrary: w)
  case Nil
  then show ?case by simp
next
  case (Cons e es)
  show ?case
  proof (cases "safeSend sender r e w")
    case None
    with Cons.prems show ?thesis by simp
  next
    case (Some p)
    obtain w1 x1 where p: "p = (w1, x1)" by (cases p)
    have keep: "dispose (objects w1 q) \<noteq> None"
    proof (cases "disposed (objects w r)")
      case True
      with Some p Cons.prems(2) show ?thesis by (auto simp: safeSend_def)
    next
      case False
      with Some p have "sender e w = Some (w1, x1)" by (simp add: safeSend_def)
      from keeps_wrappersD[OF assms this Cons.prems(2)] show ?thesis .
    qed
    show ?thesis
    proof (cases x1)
      case None
      with Some p Cons.prems(1) have "calls (safeSend sender r) es w1 = Some (w', x)" by simp
      from Cons.IH[OF this keep] show ?thesis .
    next
      case (Some y)
      with \<open>safeSend sender r e w = Some p\<close> p Cons.prems(1) have "w' = w1" by simp
      with keep show ?thesis by simp
    qed
  qed
qed

lemma run_effect_keeps_dispose:
  assumes "keeps_wrappers sender"
    and "run_effect sender r st w = Some (w', res)" and "dispose (objects w q) \<noteq> None"
  shows "dispose (objects w' q) \<noteq> None"
proof (cases "run (objects w r)")
  case (PromiseEffect fn)
  with assms(2,3) show ?thesis
    by (auto simp: run_effect_def split: sum.splits)
next
  case (EffectFn f)
  obtain sends result where f: "f (context st) (event (objects w r)) = Run sends result"
    by (cases "f (context st) (event (objects w r))")
  from assms(2) EffectFn f obtain x where "calls (safeSend sender r) sends w = Some (w', x)"
    by (auto simp: run_effect_def split: option.splits prod.splits)
  from calls_keeps_dispose[OF assms(1) this assms(3)] show ?thesis .
qed

lemma runEffects_loop_retained:
  assumes "keeps_wrappers sender"
  shows "runEffects_loop sender effs st acc w = Some (w', Inr started)
           \<Longrightarrow> \<forall>q\<in>set acc. dispose (objects w q) \<noteq> None
           \<Longrightarrow> \<forall>q\<in>set started. dispose (objects w' q) \<noteq> None"
proof (induction effs arbitrary: acc w)
  case Nil
  then show ?case by simp
next
  case (Cons r rs)
  from Cons.prems(1) obtain w1 res where
    run: "run_effect sender r st w = Some (w1, res)"
    by (auto split: option.splits)
  have keep: "\<forall>q\<in>set acc. dispose (objects w1 q) \<noteq> None"
    using Cons.prems(2) run_effect_keeps_dispose[OF assms run] by blast
  show ?case
  proof (cases res)
    case (Inl x)
    with run Cons.prems(1) show ?thesis by simp
  next
    case (Inr result)
    show ?thesis
    proof (cases result)
      case Nothing
      with run Inr Cons.prems(1)
      have "runEffects_loop sender rs st acc w1 = Some (w', Inr started)"
        by simp
      from Cons.IH[OF this keep] show ?thesis .
    next
      case PromiseLike
      let ?w = "w1\<lparr>warnings := warnings w1 @ [promise_warning]\<rparr>"
      from PromiseLike run Inr Cons.prems(1)
      have "runEffects_loop sender rs st acc ?w = Some (w', Inr started)" by simp
      moreover have "\<forall>q\<in>set acc. dispose (objects ?w q) \<noteq> None" using keep by simp
      ultimately show ?thesis by (rule Cons.IH)
    next
      case (Cleanup cleanup)
      let ?w = "w1\<lparr>objects := (objects w1)(r := (objects w1 r)\<lparr>dispose := Some cleanup\<rparr>)\<rparr>"
      from Cleanup run Inr Cons.prems(1)
      have "runEffects_loop sender rs st (acc @ [r]) ?w = Some (w', Inr started)" by simp
      moreover have "\<forall>q\<in>set (acc @ [r]). dispose (objects ?w q) \<noteq> None" using keep by simp
      ultimately show ?thesis by (rule Cons.IH)
    qed
  qed
qed

text \<open>
  C7. Let \<open>runEffects\<close> return the list \<open>started\<close>, the caller's \<open>send\<close> never removing
  a wrapper, and let \<open>r\<close> be in that list. Then \<open>r\<close> has a wrapper. Calling the wrapper,
  in any world and with any \<open>send\<close>, sets \<open>disposed\<close> and only adds one warning for
  each event the cleanup function sends: the flag is set before the cleanup runs, the
  \<open>send\<close> is not called, nothing is thrown and the session is as it was. From then on,
  in any world in which the flag is set, the guarded send of \<open>r\<close> only adds a warning.
\<close>

theorem post_disposal_send_swallowed:
  assumes "keeps_wrappers sender"
    and "runEffects sender effs st w0 = Some (w1, Inr started)"
    and "r \<in> set started"
  shows "(\<exists>cleanup. dispose (objects w1 r) = Some cleanup)
    \<and> (\<forall>w cleanup send'. dispose (objects w r) = Some cleanup \<longrightarrow>
          call_dispose send' r w =
            Some (w\<lparr>objects := (objects w)(r := (objects w r)\<lparr>disposed := True\<rparr>),
                    warnings := warnings w @ replicate (length cleanup) disposed_warning\<rparr>,
                  None))
    \<and> (\<forall>w evt send'. disposed (objects w r) \<longrightarrow>
          safeSend send' r evt w =
            Some (w\<lparr>warnings := warnings w @ [disposed_warning]\<rparr>, None))"
proof -
  have "\<forall>q\<in>set started. dispose (objects w1 q) \<noteq> None"
    using runEffects_loop_retained[OF assms(1), of effs st "[]" w0 w1 started] assms(2)
    by (simp add: runEffects_def)
  with assms(3) have "\<exists>cleanup. dispose (objects w1 r) = Some cleanup" by auto
  then show ?thesis
    by (simp add: call_dispose_def dispose_wrapper_swallows safeSend_def)
qed

text \<open>
  The effect at reference 0 is started and retained; its cleanup sends two events, which
  become two warnings, and the counter of the counting \<open>send\<close> stays at 0.
\<close>

theorem post_disposal_send_swallowed_witness:
  "runEffects counting_send [0] in_a late_world = Some (started_world, Inr [0])
   \<and> call_dispose counting_send 0 started_world =
       Some (started_world
               \<lparr>objects := (objects started_world)
                   (0 := (objects started_world 0)\<lparr>disposed := True\<rparr>),
                warnings := [disposed_warning, disposed_warning]\<rparr>, None)
   \<and> safeSend counting_send 0 (EventName ''late'')
         (started_world\<lparr>objects := (objects started_world)
                           (0 := (objects started_world 0)\<lparr>disposed := True\<rparr>)\<rparr>)
       = Some (started_world
               \<lparr>objects := (objects started_world)
                   (0 := (objects started_world 0)\<lparr>disposed := True\<rparr>),
                warnings := [disposed_warning]\<rparr>, None)
   \<and> session started_world = 0"
proof -
  have frame: "keeps_wrappers counting_send"
    by (auto simp: keeps_wrappers_def counting_send_def)
  have run: "runEffects counting_send [0] in_a late_world = Some (started_world, Inr [0])"
    by (simp add: runEffects_def run_effect_def late_world_def started_world_def
          effect_three_def)
  have d: "dispose (objects started_world 0) = Some [EventName ''late'', EventName ''later'']"
    by (simp add: started_world_def)
  have mem: "(0::nat) \<in> set [0]" by simp
  note swallowed = post_disposal_send_swallowed[OF frame run mem]
  let ?w = "started_world\<lparr>objects := (objects started_world)
              (0 := (objects started_world 0)\<lparr>disposed := True\<rparr>)\<rparr>"
  from swallowed have a: "call_dispose counting_send 0 started_world =
       Some (started_world
               \<lparr>objects := (objects started_world)
                   (0 := (objects started_world 0)\<lparr>disposed := True\<rparr>),
                warnings := warnings started_world
                  @ replicate (length [EventName ''late'', EventName ''later''])
                      disposed_warning\<rparr>, None)"
    using d by blast
  from swallowed have "disposed (objects ?w 0) \<longrightarrow>
      safeSend counting_send 0 (EventName ''late'') ?w
        = Some (?w\<lparr>warnings := warnings ?w @ [disposed_warning]\<rparr>, None)"
    by blast
  then have b: "safeSend counting_send 0 (EventName ''late'') ?w
      = Some (?w\<lparr>warnings := warnings ?w @ [disposed_warning]\<rparr>, None)"
    by simp
  have ws: "warnings started_world = []" "session started_world = 0"
    by (simp_all add: started_world_def late_world_def)
  show ?thesis
    using run a b ws by (simp add: numeral_2_eq_2)
qed

section \<open>The lowered assign\<close>

text \<open>
  C10. Let the context be at address \<open>c\<close> and the event at address \<open>e\<close> of a store.
  The reducer made from an \<open>assign\<close> hook returns the address of an object that was
  not in the store before, and leaves every object that was in the store, the context
  included, as it was. With \<^verbatim>\<open>true\<close> the new object has the properties of the event
  other than \<open>type\<close>, and the properties of the context elsewhere; with a function
  \<open>f\<close> it has the properties of the result of \<open>f\<close>, applied to the context and to the
  event without \<open>type\<close>, and those of the context elsewhere; with a constant \<open>v\<close> it has
  the properties of \<open>v\<close> and those of the context elsewhere. The reducer on contexts
  that the engine runs, \<open>assignToReduce\<close>, returns that object, and throws what \<open>f\<close>
  throws.
\<close>

theorem lowered_assign_builds_new_object:
  assumes "c < length st" and "e < length st"
  shows
   "(\<exists>r st'. assignToReduce_store AssignTrue st c e = Inr (r, st')
        \<and> length st \<le> r \<and> r < length st' \<and> take (length st) st' = st
        \<and> (\<forall>k. (st' ! r) k =
              (if k \<noteq> ''type'' \<and> k \<in> dom (st ! e) then (st ! e) k else (st ! c) k)))
    \<and> (\<forall>f p. f (st ! c) ((st ! e) |` (- {''type''})) = Inr p \<longrightarrow>
         (\<exists>r st'. assignToReduce_store (AssignFn f) st c e = Inr (r, st')
            \<and> length st \<le> r \<and> r < length st' \<and> take (length st) st' = st
            \<and> (\<forall>k. (st' ! r) k = (if k \<in> dom p then p k else (st ! c) k))))
    \<and> (\<forall>v. \<exists>r st'. assignToReduce_store (AssignValue v) st c e = Inr (r, st')
            \<and> length st \<le> r \<and> r < length st' \<and> take (length st) st' = st
            \<and> (\<forall>k. (st' ! r) k = (if k \<in> dom v then v k else (st ! c) k)))
    \<and> (\<forall>a. case assignToReduce_store a st c e of
             Inl x \<Rightarrow> assignToReduce a (st ! c) (st ! e) = Inl x
           | Inr (r, st') \<Rightarrow> assignToReduce a (st ! c) (st ! e) = Inr (Context (st' ! r)))"
proof (intro conjI allI impI)
  show "\<exists>r st'. assignToReduce_store AssignTrue st c e = Inr (r, st')
        \<and> length st \<le> r \<and> r < length st' \<and> take (length st) st' = st
        \<and> (\<forall>k. (st' ! r) k =
              (if k \<noteq> ''type'' \<and> k \<in> dom (st ! e) then (st ! e) k else (st ! c) k))"
    using assms
    by (auto simp: assignToReduce_store_def alloc_def nth_append map_add_def restrict_map_def
          split: option.splits)
next
  fix f :: "context \<Rightarrow> context \<Rightarrow> error + context" and p
  assume "f (st ! c) ((st ! e) |` (- {''type''})) = Inr p"
  then show "\<exists>r st'. assignToReduce_store (AssignFn f) st c e = Inr (r, st')
            \<and> length st \<le> r \<and> r < length st' \<and> take (length st) st' = st
            \<and> (\<forall>k. (st' ! r) k = (if k \<in> dom p then p k else (st ! c) k))"
    using assms
    by (auto simp: assignToReduce_store_def alloc_def nth_append map_add_def
          split: option.splits)
next
  fix v
  show "\<exists>r st'. assignToReduce_store (AssignValue v) st c e = Inr (r, st')
            \<and> length st \<le> r \<and> r < length st' \<and> take (length st) st' = st
            \<and> (\<forall>k. (st' ! r) k = (if k \<in> dom v then v k else (st ! c) k))"
    using assms
    by (auto simp: assignToReduce_store_def alloc_def nth_append map_add_def
          split: option.splits)
next
  fix a
  show "case assignToReduce_store a st c e of
             Inl x \<Rightarrow> assignToReduce a (st ! c) (st ! e) = Inl x
           | Inr (r, st') \<Rightarrow> assignToReduce a (st ! c) (st ! e) = Inr (Context (st' ! r))"
    using assms
    by (cases a)
       (auto simp: assignToReduce_store_def alloc_def data_def nth_append split: sum.splits)
qed

text \<open>
  \<^verbatim>\<open>{ a: 1 }\<close> and the event \<^verbatim>\<open>{ type: "go", b: 2 }\<close> with \<^verbatim>\<open>assign: true\<close>: the new
  object has \<open>a\<close> and \<open>b\<close> and no \<open>type\<close>, and the context at address 0 still has
  no \<open>b\<close>.
\<close>

theorem lowered_assign_builds_new_object_witness:
  "\<exists>r st'. assignToReduce_store AssignTrue two_objects 0 1 = Inr (r, st')
      \<and> 2 \<le> r \<and> (st' ! r) ''a'' = Some (JNum 1) \<and> (st' ! r) ''b'' = Some (JNum 2)
      \<and> (st' ! r) ''type'' = None \<and> (st' ! 0) ''b'' = None"
proof -
  have len: "0 < length two_objects" "1 < length two_objects"
    by (simp_all add: two_objects_def)
  from lowered_assign_builds_new_object[OF len]
  obtain r st' where
    run: "assignToReduce_store AssignTrue two_objects 0 1 = Inr (r, st')" and
    new: "length two_objects \<le> r" and
    old: "take (length two_objects) st' = two_objects" and
    props: "\<forall>k. (st' ! r) k =
      (if k \<noteq> ''type'' \<and> k \<in> dom (two_objects ! 1) then (two_objects ! 1) k
       else (two_objects ! 0) k)"
    by blast
  have "st' ! 0 = take (length two_objects) st' ! 0"
    by (simp add: two_objects_def)
  with old have "st' ! 0 = two_objects ! 0" by simp
  with run new props show ?thesis
    by (simp add: two_objects_def)
qed

end
